theory Spec2Isabelle
  imports Main "HOL-Library.Char_ord" "HOL-Library.List_Lexorder" "HOL-Library.AList"
begin

section \<open>Python strings\<close>

text \<open>
  A Python \<open>str\<close> is modelled as a \<open>string\<close> (a list of 8-bit characters) read as
  ASCII text. The \<open>str\<close> methods the program calls are written out below for ASCII:
  characters from 128 up are neither whitespace nor letters here, so the whitespace and
  the letters of Unicode beyond ASCII (which \<open>strip\<close>, \<open>lower\<close> and \<open>capitalize\<close> of Python
  also treat) are outside the model.
\<close>

text \<open>\<open>sub in s\<close>: \<open>sub\<close> occurs in \<open>s\<close> as a contiguous run of characters.\<close>

fun startswith :: "string \<Rightarrow> string \<Rightarrow> bool" where
  "startswith s [] = True"
| "startswith [] (p # ps) = False"
| "startswith (c # cs) (p # ps) = (c = p \<and> startswith cs ps)"

fun str_contains :: "string \<Rightarrow> string \<Rightarrow> bool" where
  "str_contains [] sub = (sub = [])"
| "str_contains (c # cs) sub = (startswith (c # cs) sub \<or> str_contains cs sub)"

text \<open>
  \<open>s.split(",")\<close>: the pieces between the commas; there is always at least one piece
  (\<open>"".split(",")\<close> is \<open>[""]\<close>).
\<close>

fun str_split :: "string \<Rightarrow> string list" where
  "str_split [] = [[]]"
| "str_split (c # cs) =
     (if c = CHR '','' then [] # str_split cs
      else (case str_split cs of
              [] \<Rightarrow> [[c]]
            | t # ts \<Rightarrow> (c # t) # ts))"

text \<open>
  \<open>s.strip()\<close>: leading and trailing whitespace removed. The ASCII characters Python
  counts as whitespace are 9 to 13 (tab to carriage return), 28 to 31 and the space.
\<close>

definition isspace :: "char \<Rightarrow> bool" where
  "isspace c = (c \<in> set [CHR 0x09, CHR 0x0A, CHR 0x0B, CHR 0x0C, CHR 0x0D,
                         CHR 0x1C, CHR 0x1D, CHR 0x1E, CHR 0x1F, CHR '' ''])"

definition str_strip :: "string \<Rightarrow> string" where
  "str_strip s = rev (dropWhile isspace (rev (dropWhile isspace s)))"

text \<open>\<open>s.lower()\<close>, \<open>s.upper()\<close> on single characters, and \<open>s.capitalize()\<close>: the first
  character in upper case, all others in lower case.\<close>

definition char_lower :: "char \<Rightarrow> char" where
  "char_lower c =
     (case map_of (zip ''ABCDEFGHIJKLMNOPQRSTUVWXYZ'' ''abcdefghijklmnopqrstuvwxyz'') c of
        Some l \<Rightarrow> l
      | None \<Rightarrow> c)"

definition char_upper :: "char \<Rightarrow> char" where
  "char_upper c =
     (case map_of (zip ''abcdefghijklmnopqrstuvwxyz'' ''ABCDEFGHIJKLMNOPQRSTUVWXYZ'') c of
        Some u \<Rightarrow> u
      | None \<Rightarrow> c)"

definition str_lower :: "string \<Rightarrow> string" where
  "str_lower s = map char_lower s"

fun str_capitalize :: "string \<Rightarrow> string" where
  "str_capitalize [] = []"
| "str_capitalize (c # cs) = char_upper c # map char_lower cs"

text \<open>\<open>sep.join(xs)\<close> and \<open>s.replace("-", "_")\<close>.\<close>

fun str_join :: "string \<Rightarrow> string list \<Rightarrow> string" where
  "str_join sep [] = []"
| "str_join sep [x] = x"
| "str_join sep (x # y # ys) = x @ sep @ str_join sep (y # ys)"

definition replace_hyphens :: "string \<Rightarrow> string" where
  "replace_hyphens s = map (\<lambda>c. if c = CHR ''-'' then CHR ''_'' else c) s"


section \<open>The interactive configuration (cli/interactive.py)\<close>

text \<open>
  \<open>ScribeDataConfig\<close>: \<open>languages\<close> and \<open>data_types\<close> are the registry lists read at start-up,
  the other fields are what the prompts set. The output directory (a \<open>Path\<close> in the source)
  is kept as the text it was made from: the tidying that \<open>Path\<close> does to that text (a
  trailing or doubled slash) is not modelled.
\<close>

record config =
  languages :: "string list"
  data_types :: "string list"
  selected_languages :: "string list"
  selected_data_types :: "string list"
  output_type :: string
  output_dir :: string
  overwrite :: bool
  configured :: bool

text \<open>The fixed texts the program prints with \<open>rprint\<close>.\<close>

datatype message =
    FollowPrompts
  | NoLanguageSelected
  | NoDataTypeSelected
  | InvalidOutputType
  | PleaseConfigure
  | RequestCompleted

text \<open>
  What a run does to the outside, in order: texts printed, prompts shown (with the default
  text or directory they show), the summary table, and in \<open>run_request\<close> the progress bar,
  the calls of \<open>get_data\<close> with the keyword arguments \<open>language\<close>, \<open>data_type\<close>,
  \<open>output_type\<close>, \<open>output_dir\<close>, \<open>overwrite\<close>, \<open>interactive\<close>, and the log line of each pair.
\<close>

datatype event =
    Rprint message
  | PromptLanguages string
  | PromptDataTypes string
  | PromptOutputType
  | PromptOutputDir string
  | PromptOverwrite
  | DisplaySummary "(string \<times> string) list"
  | SetDescription string string
  | GetData string string string string bool bool
  | LogExported string string
  | LogFailed string string
  | PbarUpdate nat


subsection \<open>run_request\<close>

text \<open>
  \<open>get_data\<close> lives in \<open>scribe_data.cli.get\<close>, outside the files at hand. It is a parameter
  of the model: from a state of the outside world \<open>'w\<close> (network, files) and the arguments
  of the call it gives the truth value \<open>run_request\<close> tests, and the next state of the world.
  Every call returns: \<open>run_request\<close> has no handler, so an exception out of \<open>get_data\<close>
  would leave it at once, and is not part of this model. The \<open>tqdm\<close> bar is modelled by
  its two calls in the loop body.
\<close>

type_synonym 'w get_data = "'w \<Rightarrow> event \<Rightarrow> bool \<times> 'w"

definition get_data_call :: "config \<Rightarrow> string \<Rightarrow> string \<Rightarrow> event" where
  "get_data_call cfg language data_type =
     GetData language data_type (output_type cfg) (output_dir cfg) (overwrite cfg) True"

text \<open>The inner loop \<open>for data_type in config.selected_data_types\<close>, for one language.\<close>

fun export_data_types :: "'w get_data \<Rightarrow> config \<Rightarrow> string \<Rightarrow> string list \<Rightarrow> 'w \<Rightarrow> event list \<times> 'w" where
  "export_data_types get_data cfg language [] w = ([], w)"
| "export_data_types get_data cfg language (data_type # dts) w =
     (let (ok, w1) = get_data w (get_data_call cfg language data_type);
          (evs, w2) = export_data_types get_data cfg language dts w1
      in (SetDescription language data_type
          # get_data_call cfg language data_type
          # (if ok then LogExported language data_type else LogFailed language data_type)
          # PbarUpdate 1
          # evs, w2))"

text \<open>The outer loop \<open>for language in config.selected_languages\<close>.\<close>

fun export_languages :: "'w get_data \<Rightarrow> config \<Rightarrow> string list \<Rightarrow> 'w \<Rightarrow> event list \<times> 'w" where
  "export_languages get_data cfg [] w = ([], w)"
| "export_languages get_data cfg (language # langs) w =
     (let (evs1, w1) = export_data_types get_data cfg language (selected_data_types cfg) w;
          (evs2, w2) = export_languages get_data cfg langs w1
      in (evs1 @ evs2, w2))"

text \<open>
  \<open>run_request\<close> reads the configuration and never assigns to it; the model returns it
  with the events and the world.
\<close>

definition run_request :: "'w get_data \<Rightarrow> config \<Rightarrow> 'w \<Rightarrow> event list \<times> config \<times> 'w" where
  "run_request get_data cfg w =
     (if selected_languages cfg = [] \<or> selected_data_types cfg = []
      then ([Rprint PleaseConfigure], cfg, w)
      else (let (evs, w1) = export_languages get_data cfg (selected_languages cfg) w
            in (evs @ (if overwrite cfg then [Rprint RequestCompleted] else []), cfg, w1)))"


subsection \<open>configure_settings\<close>

text \<open>
  The answers typed at the prompts are a list, read from the front: each \<open>prompt(...)\<close>
  takes the next one. When none is left the prompt raises \<open>EOFError\<close> (end of input), which
  nothing in \<open>configure_settings\<close> catches. A run gives the events, the configuration as it
  stands, the answers not read, and how it ended: by returning, or by one of the two
  exceptions that can leave it, \<open>EOFError\<close> and \<open>RecursionError\<close>.
\<close>

datatype status = Returned | EOFError | RecursionError

type_synonym session = "event list \<times> config \<times> string list \<times> status"

definition prepend :: "event list \<Rightarrow> session \<Rightarrow> session" where
  "prepend evs r = (case r of (evs', cfg, ins, st) \<Rightarrow> (evs @ evs', cfg, ins, st))"

text \<open>
  The list comprehension of both selection steps:
  \<open>[x.strip() for x in s.split(",") if x.strip() in registry]\<close>.
\<close>

definition filter_selection :: "string list \<Rightarrow> string \<Rightarrow> string list" where
  "filter_selection registry s = [str_strip t. t \<leftarrow> str_split s, str_strip t \<in> set registry]"

text \<open>Lines 123 to 130: \<open>if "All" in selected_languages: ... else: ...\<close>.\<close>

definition language_selection :: "config \<Rightarrow> string \<Rightarrow> string list" where
  "language_selection cfg s =
     (if str_contains s ''All'' then languages cfg
      else filter_selection (languages cfg) s)"

text \<open>Lines 145 to 152: \<open>if "All" in selected_data_types.capitalize(): ... else: ...\<close>.\<close>

definition data_type_selection :: "config \<Rightarrow> string \<Rightarrow> string list" where
  "data_type_selection cfg s =
     (if str_contains (str_capitalize s) ''All'' then data_types cfg
      else filter_selection (data_types cfg) s)"

text \<open>
  Lines 160 to 167: the output type is asked for until it is one of json, csv, tsv; every
  answer is stored in \<open>config.output_type\<close> before it is tested.
\<close>

fun select_output_type :: "config \<Rightarrow> string list \<Rightarrow> session" where
  "select_output_type cfg [] = ([PromptOutputType], cfg, [], EOFError)"
| "select_output_type cfg (t # ins) =
     (if t \<in> set [''json'', ''csv'', ''tsv'']
      then ([PromptOutputType], cfg\<lparr>output_type := t\<rparr>, ins, Returned)
      else prepend [PromptOutputType, Rprint InvalidOutputType]
             (select_output_type (cfg\<lparr>output_type := t\<rparr>) ins))"

text \<open>\<open>display_summary\<close>: the rows of the table it prints.\<close>

definition or_None :: "string \<Rightarrow> string" where
  "or_None s = (if s = [] then ''None'' else s)"

definition display_summary :: "config \<Rightarrow> event" where
  "display_summary cfg = DisplaySummary
     [(''Languages'', or_None (str_join '', '' (selected_languages cfg))),
      (''Data Types'', or_None (str_join '', '' (selected_data_types cfg))),
      (''Output Type'', output_type cfg),
      (''Output Directory'', output_dir cfg),
      (''Overwrite'', if overwrite cfg then ''Yes'' else ''No'')]"

text \<open>
  Lines 158 to 182, the part of \<open>configure_settings\<close> after both selections: output type,
  output directory (an empty answer keeps the directory), overwrite confirmation
  (\<open>prompt(...) or "y"\<close>, then \<open>overwrite.lower() == "y"\<close>), \<open>configured\<close>, summary.
\<close>

definition configure_output :: "config \<Rightarrow> string list \<Rightarrow> session" where
  "configure_output cfg ins =
     (case select_output_type cfg ins of
        (evs, cfg1, ins1, EOFError) \<Rightarrow> (evs, cfg1, ins1, EOFError)
      | (evs, cfg1, ins1, RecursionError) \<Rightarrow> (evs, cfg1, ins1, RecursionError)
      | (evs, cfg1, ins1, Returned) \<Rightarrow>
          (case ins1 of
             [] \<Rightarrow> (evs @ [PromptOutputDir (output_dir cfg1)], cfg1, [], EOFError)
           | dir # ins2 \<Rightarrow>
               (let cfg2 = (if dir \<noteq> [] then cfg1\<lparr>output_dir := dir\<rparr> else cfg1)
                in case ins2 of
                     [] \<Rightarrow> (evs @ [PromptOutputDir (output_dir cfg1), PromptOverwrite],
                            cfg2, [], EOFError)
                   | answer # ins3 \<Rightarrow>
                       (let ow = (if answer \<noteq> [] then answer else ''y'');
                            cfg3 = cfg2\<lparr>overwrite := (str_lower ow = ''y''), configured := True\<rparr>
                        in (evs @ [PromptOutputDir (output_dir cfg1), PromptOverwrite,
                                   display_summary cfg3],
                            cfg3, ins3, Returned)))))"

text \<open>
  \<open>configure_settings\<close> itself: the language step, the data type step, then the rest. An
  empty selection at either step prints its warning and ends in
  \<open>return configure_settings()\<close>, a call of the function from within itself, on the
  configuration as it stands.

  Python keeps the frame of the caller while that call runs, and raises \<open>RecursionError\<close>
  when the nesting of calls passes the interpreter's limit (1000 frames unless it is
  changed, less those of the callers). The first argument, \<open>depth\<close>, is the number of
  further nested calls of \<open>configure_settings\<close> for which there is room when a call is
  entered: with \<open>depth\<close> 0 the retry raises \<open>RecursionError\<close>, which nothing catches.
\<close>

fun configure_settings :: "nat \<Rightarrow> config \<Rightarrow> string list \<Rightarrow> session" where
  "configure_settings depth cfg [] =
     ([Rprint FollowPrompts, PromptLanguages (str_join '', '' (selected_languages cfg))],
      cfg, [], EOFError)"
| "configure_settings depth cfg (answer # ins) =
     (let cfg1 = cfg\<lparr>selected_languages := language_selection cfg answer\<rparr>;
          evs1 = [Rprint FollowPrompts, PromptLanguages (str_join '', '' (selected_languages cfg))]
      in if selected_languages cfg1 = []
         then (case depth of
                 0 \<Rightarrow> (evs1 @ [Rprint NoLanguageSelected], cfg1, ins, RecursionError)
               | Suc deeper \<Rightarrow>
                   prepend (evs1 @ [Rprint NoLanguageSelected])
                     (configure_settings deeper cfg1 ins))
         else (let evs2 = evs1 @ [PromptDataTypes (str_join '', '' (selected_data_types cfg1))]
               in case ins of
                    [] \<Rightarrow> (evs2, cfg1, [], EOFError)
                  | answer2 # ins2 \<Rightarrow>
                      (let cfg2 = cfg1\<lparr>selected_data_types := data_type_selection cfg1 answer2\<rparr>
                       in if selected_data_types cfg2 = []
                          then (case depth of
                                  0 \<Rightarrow> (evs2 @ [Rprint NoDataTypeSelected], cfg2, ins2,
                                        RecursionError)
                                | Suc deeper \<Rightarrow>
                                    prepend (evs2 @ [Rprint NoDataTypeSelected])
                                      (configure_settings deeper cfg2 ins2))
                          else prepend evs2 (configure_output cfg2 ins2))))"


section \<open>The command line (cli/main.py)\<close>

text \<open>
  What \<open>parser.parse_args()\<close> hands to the rest of \<open>main\<close>. An option that can be left
  out is \<open>None\<close> (\<open>Absent\<close>), a text, or, for the \<open>list\<close> command's \<open>nargs="?"\<close> options
  given without a value, the constant \<open>True\<close> (\<open>Flag\<close>). Without a subcommand the namespace
  has \<open>command\<close> and \<open>upgrade\<close> only.
\<close>

datatype arg = Absent | Str string | Flag

record args =
  args_command :: string
  args_upgrade :: bool
  args_language :: arg
  args_data_type :: arg
  args_all :: "bool option"
  args_interactive :: bool
  args_output_type :: "string option"
  args_output_dir :: "string option"
  args_outputs_per_entry :: "int option"
  args_overwrite :: bool
  args_identifier_case :: string
  args_input_file :: string

datatype namespace = NoCommand bool | Command args

datatype raised = AttributeError | TypeError | KeyboardInterrupt | OtherError

datatype exit = Exits | Uncaught raised

text \<open>
  The calls \<open>main\<close> makes, with their arguments in the order of the source:
  \<open>validate_language_and_data_type(language, data_type)\<close>,
  \<open>list_wrapper(language, data_type, all_bool)\<close>,
  \<open>get_data(language, data_type, output_type, output_dir, outputs_per_entry, overwrite, all,
  identifier_case)\<close>, \<open>total_wrapper(language, data_type, all_bool)\<close>,
  \<open>convert_wrapper(language, data_type, output_type, input_file, output_dir, overwrite,
  identifier_case)\<close>, and what it prints itself.
\<close>

datatype action =
    Validate arg arg
  | PrintValidationFailed string
  | UpgradeCli
  | PrintHelp
  | ListWrapper arg arg "bool option"
  | GetDataCli string string "string option" "string option" "int option" bool "bool option" string
  | TotalWrapper "string option" "string option" "bool option"
  | ConvertWrapper string arg "string option" string "string option" bool string
  | PrintInterrupted

text \<open>Python's truth value of an option, and \<open>x.lower()\<close>, which only a text has.\<close>

fun truthy :: "arg \<Rightarrow> bool" where
  "truthy Absent = False"
| "truthy (Str s) = (s \<noteq> [])"
| "truthy Flag = True"

fun arg_lower :: "arg \<Rightarrow> raised + string" where
  "arg_lower (Str s) = Inr (str_lower s)"
| "arg_lower Absent = Inl AttributeError"
| "arg_lower Flag = Inl AttributeError"

text \<open>Lines 266 and 267: \<open>if args.data_type and isinstance(args.data_type, str)\<close>.\<close>

fun normalize_data_type :: "arg \<Rightarrow> arg" where
  "normalize_data_type (Str s) = (if s \<noteq> [] then Str (replace_hyphens s) else Str s)"
| "normalize_data_type Absent = Absent"
| "normalize_data_type Flag = Flag"

text \<open>
  The commands called are outside the files at hand. The parameter \<open>sub\<close> says how a call
  ends: \<open>None\<close> when it returns, or the exception it raises. Inside the \<open>try\<close> of lines 287
  to 339 a \<open>KeyboardInterrupt\<close> is caught and reported; anything else leaves \<open>main\<close>.
\<close>

definition dispatch :: "(action \<Rightarrow> raised option) \<Rightarrow> action \<Rightarrow> action list \<times> exit" where
  "dispatch sub call =
     (case sub call of
        None \<Rightarrow> ([call], Exits)
      | Some KeyboardInterrupt \<Rightarrow> ([call, PrintInterrupted], Exits)
      | Some e \<Rightarrow> ([call], Uncaught e))"

text \<open>
  Lines 287 to 339. \<open>start_interactive_mode(operation=...)\<close> is a call with a keyword that
  \<open>start_interactive_mode()\<close> of interactive.py does not take: a \<open>TypeError\<close>. The arguments
  of a call are evaluated before it, so a \<open>.lower()\<close> on \<open>None\<close> ends the run before the
  command is entered.
\<close>

definition run_command :: "(action \<Rightarrow> raised option) \<Rightarrow> args \<Rightarrow> action list \<times> exit" where
  "run_command sub a =
     (if args_command a \<in> set [''list'', ''l'']
      then dispatch sub (ListWrapper (args_language a) (args_data_type a) (args_all a))
      else if args_command a \<in> set [''get'', ''g'']
      then (if args_interactive a then ([], Uncaught TypeError)
            else (case arg_lower (args_language a) of
                    Inl e \<Rightarrow> ([], Uncaught e)
                  | Inr l \<Rightarrow>
                      (case arg_lower (args_data_type a) of
                         Inl e \<Rightarrow> ([], Uncaught e)
                       | Inr d \<Rightarrow>
                           dispatch sub
                             (GetDataCli l d (args_output_type a) (args_output_dir a)
                                (args_outputs_per_entry a) (args_overwrite a) (args_all a)
                                (args_identifier_case a)))))
      else if args_command a \<in> set [''total'', ''t'']
      then (if args_interactive a then ([], Uncaught TypeError)
            else (case (if args_language a = Absent then Inr None
                        else map_sum id Some (arg_lower (args_language a))) of
                    Inl e \<Rightarrow> ([], Uncaught e)
                  | Inr l \<Rightarrow>
                      (case (if args_data_type a = Absent then Inr None
                             else map_sum id Some (arg_lower (args_data_type a))) of
                         Inl e \<Rightarrow> ([], Uncaught e)
                       | Inr d \<Rightarrow> dispatch sub (TotalWrapper l d (args_all a)))))
      else if args_command a \<in> set [''convert'', ''c'']
      then (case arg_lower (args_language a) of
              Inl e \<Rightarrow> ([], Uncaught e)
            | Inr l \<Rightarrow>
                dispatch sub
                  (ConvertWrapper l (args_data_type a) (args_output_type a) (args_input_file a)
                     (args_output_dir a) (args_overwrite a) (args_identifier_case a)))
      else dispatch sub PrintHelp)"

text \<open>
  \<open>main\<close> from line 264 on. \<open>validate_language_and_data_type\<close> is in cli_utils, outside the
  files at hand, and a parameter here: \<open>Some e\<close> when it raises \<open>ValueError(e)\<close>, the failure
  line 275 catches, \<open>None\<close> when it returns. Without a subcommand, line 266 reads
  \<open>args.data_type\<close>, which that namespace does not have.
\<close>

fun main :: "(arg \<Rightarrow> arg \<Rightarrow> string option) \<Rightarrow> (action \<Rightarrow> raised option) \<Rightarrow> namespace
    \<Rightarrow> action list \<times> exit" where
  "main validate sub (NoCommand u) = ([], Uncaught AttributeError)"
| "main validate sub (Command a0) =
     (let a = a0\<lparr>args_data_type := normalize_data_type (args_data_type a0)\<rparr>;
          checked = (truthy (args_language a) \<or> truthy (args_data_type a));
          evs = (if checked then [Validate (args_language a) (args_data_type a)] else [])
      in case (if checked then validate (args_language a) (args_data_type a) else None) of
           Some e \<Rightarrow> (evs @ [PrintValidationFailed e], Exits)
         | None \<Rightarrow>
             if args_upgrade a
             then (case sub UpgradeCli of
                     None \<Rightarrow> (evs @ [UpgradeCli], Exits)
                   | Some e \<Rightarrow> (evs @ [UpgradeCli], Uncaught e))
             else if args_command a = [] then (evs @ [PrintHelp], Exits)
             else (case run_command sub a of (evs', x) \<Rightarrow> (evs @ evs', x)))"


section \<open>The formatter of Portuguese verbs (Portuguese/verbs/format_verbs.py)\<close>

text \<open>
  A queried row is a dictionary from field names to texts. A dictionary that is built key
  by key is an association list with the keys in insertion order: assigning to a key that
  is there keeps its place and replaces its value.
\<close>

type_synonym row = "string \<rightharpoonup> string"

datatype key_error = KeyError string

definition all_conjugations :: "string list" where
  "all_conjugations =
     [''presFPS'', ''presSPS'', ''presTPS'', ''presFPP'', ''presSPP'', ''presTPP'',
      ''perfFPS'', ''perfSPS'', ''perfTPS'', ''perfFPP'', ''perfSPP'', ''perfTPP'',
      ''impFPS'', ''impSPS'', ''impTPS'', ''impFPP'', ''impSPP'', ''impTPP'',
      ''fSimpFPS'', ''fSimpSPS'', ''fSimpTPS'', ''fSimpFPP'', ''fSimpSPP'', ''fSimpTPP'']"

text \<open>Lines 51 to 55, from the empty dictionary of line 49.\<close>

definition fill_conjugations :: "row \<Rightarrow> (string \<times> string) list" where
  "fill_conjugations verb_vals =
     foldl (\<lambda>entry conj.
              AList.update conj (case verb_vals conj of Some v \<Rightarrow> v | None \<Rightarrow> []) entry)
       [] all_conjugations"

text \<open>The loop of line 48; \<open>verb_vals["infinitive"]\<close> raises \<open>KeyError\<close> on a row without it.\<close>

fun format_rows :: "row list \<Rightarrow> (string \<times> (string \<times> string) list) list
    \<Rightarrow> key_error + (string \<times> (string \<times> string) list) list" where
  "format_rows [] formatted = Inr formatted"
| "format_rows (verb_vals # rest) formatted =
     (case verb_vals ''infinitive'' of
        None \<Rightarrow> Inl (KeyError ''infinitive'')
      | Some infinitive \<Rightarrow>
          format_rows rest (AList.update infinitive (fill_conjugations verb_vals) formatted))"

text \<open>
  Line 57: \<open>collections.OrderedDict(sorted(verbs_formatted.items()))\<close>. The items are
  pairs of a key and an entry; the keys of a dictionary differ, so the keys alone order
  them. Texts compare character by character.
\<close>

definition verbs_formatted :: "row list \<Rightarrow> key_error + (string \<times> (string \<times> string) list) list" where
  "verbs_formatted verbs_list =
     (case format_rows verbs_list [] of
        Inl e \<Rightarrow> Inl e
      | Inr formatted \<Rightarrow> Inr (sort_key fst formatted))"


section \<open>Notions the properties are stated with\<close>

text \<open>The calls of \<open>get_data\<close> and the log lines among the events of a run.\<close>

fun is_get_data :: "event \<Rightarrow> bool" where
  "is_get_data (GetData l d t dir ow i) = True"
| "is_get_data _ = False"

fun is_log :: "event \<Rightarrow> bool" where
  "is_log (LogExported l d) = True"
| "is_log (LogFailed l d) = True"
| "is_log _ = False"

text \<open>
  What \<open>get_data\<close> answers to a list of calls made one after the other from the world
  \<open>w\<close>, and the world after them.
\<close>

fun outcomes :: "'w get_data \<Rightarrow> 'w \<Rightarrow> event list \<Rightarrow> bool list" where
  "outcomes get_data w [] = []"
| "outcomes get_data w (c # cs) = fst (get_data w c) # outcomes get_data (snd (get_data w c)) cs"

fun world_after :: "'w get_data \<Rightarrow> 'w \<Rightarrow> event list \<Rightarrow> 'w" where
  "world_after get_data w [] = w"
| "world_after get_data w (c # cs) = world_after get_data (snd (get_data w c)) cs"

text \<open>The pairs in the order of the two loops, and what is done for one pair.\<close>

definition pairs :: "config \<Rightarrow> (string \<times> string) list" where
  "pairs cfg =
     concat (map (\<lambda>l. map (\<lambda>d. (l, d)) (selected_data_types cfg)) (selected_languages cfg))"

definition pair_call :: "config \<Rightarrow> string \<times> string \<Rightarrow> event" where
  "pair_call cfg p = get_data_call cfg (fst p) (snd p)"

definition log_line :: "string \<times> string \<Rightarrow> bool \<Rightarrow> event" where
  "log_line p ok = (if ok then LogExported (fst p) (snd p) else LogFailed (fst p) (snd p))"

definition pair_events :: "config \<Rightarrow> string \<times> string \<Rightarrow> bool \<Rightarrow> event list" where
  "pair_events cfg p ok =
     [SetDescription (fst p) (snd p), pair_call cfg p, log_line p ok, PbarUpdate 1]"

text \<open>
  A \<open>get_data\<close> that answers from a prepared list of outcomes, one per call (and fails
  once the list is used up); the world is the list of outcomes still to come.
\<close>

fun scripted :: "bool list get_data" where
  "scripted [] c = (False, [])"
| "scripted (ok # oks) c = (ok, oks)"

definition french_german_nouns :: config where
  "french_german_nouns =
     \<lparr>languages = [''English'', ''French'', ''German''], data_types = [''nouns'', ''verbs''],
      selected_languages = [''French'', ''German''], selected_data_types = [''nouns''],
      output_type = ''json'', output_dir = ''scribe_data_json_export'',
      overwrite = False, configured = True\<rparr>"

definition two_by_two :: config where
  "two_by_two =
     \<lparr>languages = [''English'', ''French'', ''German''], data_types = [''nouns'', ''verbs''],
      selected_languages = [''French'', ''German''], selected_data_types = [''nouns'', ''verbs''],
      output_type = ''csv'', output_dir = ''out'',
      overwrite = True, configured = True\<rparr>"

definition no_languages :: config where
  "no_languages =
     \<lparr>languages = [''English'', ''French'', ''German''], data_types = [''nouns'', ''verbs''],
      selected_languages = [], selected_data_types = [''nouns''],
      output_type = ''json'', output_dir = ''scribe_data_json_export'',
      overwrite = True, configured = False\<rparr>"


text \<open>The parts of a run of \<open>configure_settings\<close>.\<close>

definition events_of :: "session \<Rightarrow> event list" where
  "events_of r = fst r"

definition config_of :: "session \<Rightarrow> config" where
  "config_of r = fst (snd r)"

definition unread_of :: "session \<Rightarrow> string list" where
  "unread_of r = fst (snd (snd r))"

definition status_of :: "session \<Rightarrow> status" where
  "status_of r = snd (snd (snd r))"

text \<open>The two warnings about an empty selection.\<close>

definition is_warning :: "event \<Rightarrow> bool" where
  "is_warning e = (e = Rprint NoLanguageSelected \<or> e = Rprint NoDataTypeSelected)"

text \<open>
  The answers of one pass through \<open>configure_settings\<close> that ends in an empty selection:
  either one answer that selects no language, or an answer that selects some language
  followed by one that selects no data type.
\<close>

fun failed_round :: "config \<Rightarrow> string list \<Rightarrow> bool" where
  "failed_round cfg [l] = (language_selection cfg l = [])"
| "failed_round cfg [l, d] = (language_selection cfg l \<noteq> [] \<and> data_type_selection cfg d = [])"
| "failed_round cfg r = False"

text \<open>A configuration as it is at the start of a session, on a small registry.\<close>

definition registry :: config where
  "registry =
     \<lparr>languages = [''English'', ''French'', ''German''], data_types = [''nouns'', ''verbs''],
      selected_languages = [], selected_data_types = [],
      output_type = ''json'', output_dir = ''scribe_data_json_export'',
      overwrite = False, configured = False\<rparr>"

text \<open>
  The room for nested calls that a session started from the command line has, about: the
  default limit of 1000 frames less those in use when \<open>configure_settings\<close> is entered.
\<close>

definition usual_depth :: nat where
  "usual_depth = 996"

text \<open>The calls of \<open>get_data\<close> among the actions of \<open>main\<close>.\<close>

fun is_get_data_cli :: "action \<Rightarrow> bool" where
  "is_get_data_cli (GetDataCli l d ot od ope ow al ic) = True"
| "is_get_data_cli _ = False"

text \<open>
  Two invocations: \<open>get --data-type proper-nouns --output-type json\<close>, with no
  language, and \<open>total --language ""\<close>, with an empty language.
\<close>

definition get_without_language :: args where
  "get_without_language =
     \<lparr>args_command = ''get'', args_upgrade = False, args_language = Absent,
      args_data_type = Str ''proper-nouns'', args_all = None, args_interactive = False,
      args_output_type = Some ''json'', args_output_dir = None,
      args_outputs_per_entry = None, args_overwrite = False,
      args_identifier_case = ''camel'', args_input_file = []\<rparr>"

definition total_empty_language :: args where
  "total_empty_language =
     \<lparr>args_command = ''total'', args_upgrade = False, args_language = Str [],
      args_data_type = Absent, args_all = None, args_interactive = False,
      args_output_type = None, args_output_dir = None,
      args_outputs_per_entry = None, args_overwrite = False,
      args_identifier_case = ''camel'', args_input_file = []\<rparr>"

text \<open>The invocation \<open>get --all\<close>, with neither a language nor a data type.\<close>

definition get_all :: args where
  "get_all =
     \<lparr>args_command = ''get'', args_upgrade = False, args_language = Absent,
      args_data_type = Absent, args_all = Some True, args_interactive = False,
      args_output_type = None, args_output_dir = None,
      args_outputs_per_entry = None, args_overwrite = False,
      args_identifier_case = ''camel'', args_input_file = []\<rparr>"

text \<open>A validator that accepts everything, one that rejects everything, and commands
  that return.\<close>

definition accept_all :: "arg \<Rightarrow> arg \<Rightarrow> string option" where
  "accept_all l d = None"

definition reject_all :: "arg \<Rightarrow> arg \<Rightarrow> string option" where
  "reject_all l d = Some ''Invalid language or data type.''"

definition returns :: "action \<Rightarrow> raised option" where
  "returns call = None"

text \<open>
  The entry of a row with every conjugation field in the order of \<open>all_conjugations\<close>,
  the empty text standing for a field the row lacks; the last row of a list with a given
  infinitive; rows that have an infinitive.
\<close>

definition canonical_entry :: "row \<Rightarrow> (string \<times> string) list" where
  "canonical_entry r = map (\<lambda>conj. (conj, case r conj of Some v \<Rightarrow> v | None \<Rightarrow> [])) all_conjugations"

definition last_row_with :: "string \<Rightarrow> row list \<Rightarrow> row option" where
  "last_row_with k rows = find (\<lambda>r. r ''infinitive'' = Some k) (rev rows)"

definition has_infinitive :: "row \<Rightarrow> bool" where
  "has_infinitive r = (r ''infinitive'' \<noteq> None)"

text \<open>Three queried rows, two of them for the same verb.\<close>

definition three_rows :: "row list" where
  "three_rows =
     [[''infinitive'' \<mapsto> ''ser'', ''presFPS'' \<mapsto> ''sou''],
      [''infinitive'' \<mapsto> ''amar'', ''presFPS'' \<mapsto> ''amo'', ''perfTPP'' \<mapsto> ''amaram''],
      [''infinitive'' \<mapsto> ''ser'', ''presSPS'' \<mapsto> ''es'']]"


section \<open>Properties of run_request\<close>

lemma outcomes_append:
  "outcomes gd w (cs @ ds) = outcomes gd w cs @ outcomes gd (world_after gd w cs) ds"
  by (induction cs arbitrary: w) auto

lemma world_after_append:
  "world_after gd w (cs @ ds) = world_after gd (world_after gd w cs) ds"
  by (induction cs arbitrary: w) auto

lemma length_outcomes: "length (outcomes gd w cs) = length cs"
  by (induction cs arbitrary: w) auto

lemma export_data_types_trace:
  "export_data_types gd cfg l dts w =
     (concat (map2 (pair_events cfg) (map (Pair l) dts)
        (outcomes gd w (map (pair_call cfg) (map (Pair l) dts)))),
      world_after gd w (map (pair_call cfg) (map (Pair l) dts)))"
  by (induction dts arbitrary: w)
    (auto simp: pair_events_def pair_call_def log_line_def split: prod.splits)

lemma export_languages_trace:
  "export_languages gd cfg ls w =
     (concat (map2 (pair_events cfg) (pairs (cfg\<lparr>selected_languages := ls\<rparr>))
        (outcomes gd w (map (pair_call cfg) (pairs (cfg\<lparr>selected_languages := ls\<rparr>))))),
      world_after gd w (map (pair_call cfg) (pairs (cfg\<lparr>selected_languages := ls\<rparr>))))"
proof (induction ls arbitrary: w)
  case Nil
  then show ?case by (simp add: pairs_def)
next
  case (Cons l ls)
  have len: "length (map (Pair l) (selected_data_types cfg)) =
    length (outcomes gd w (map (pair_call cfg) (map (Pair l) (selected_data_types cfg))))"
    by (simp add: length_outcomes)
  show ?case
    using len Cons
    by (simp add: export_data_types_trace pairs_def outcomes_append world_after_append)
qed

text \<open>
  The whole run on a configuration with both selections non-empty: the events of the
  pairs, pair after pair, then the closing notice if \<open>overwrite\<close> is set.
\<close>

lemma run_request_trace:
  assumes "selected_languages cfg \<noteq> []" and "selected_data_types cfg \<noteq> []"
  shows "run_request gd cfg w =
    (concat (map2 (pair_events cfg) (pairs cfg) (outcomes gd w (map (pair_call cfg) (pairs cfg))))
       @ (if overwrite cfg then [Rprint RequestCompleted] else []),
     cfg, world_after gd w (map (pair_call cfg) (pairs cfg)))"
proof -
  have "cfg\<lparr>selected_languages := selected_languages cfg\<rparr> = cfg" by simp
  with export_languages_trace [of gd cfg "selected_languages cfg" w] assms show ?thesis
    by (simp add: run_request_def)
qed

lemma filter_calls_pair_events:
  "length oks = length ps \<Longrightarrow>
   filter is_get_data (concat (map2 (pair_events cfg) ps oks)) = map (pair_call cfg) ps"
  by (induction ps oks rule: list_induct2')
    (auto simp: pair_events_def pair_call_def get_data_call_def log_line_def)

lemma filter_logs_pair_events:
  "length oks = length ps \<Longrightarrow>
   filter is_log (concat (map2 (pair_events cfg) ps oks)) = map2 log_line ps oks"
  by (induction ps oks rule: list_induct2')
    (auto simp: pair_events_def pair_call_def get_data_call_def log_line_def)

lemma length_pairs:
  "length (pairs cfg) = length (selected_languages cfg) * length (selected_data_types cfg)"
  unfolding pairs_def by (induction "selected_languages cfg" arbitrary: cfg)
    (simp_all add: length_concat comp_def sum_list_triv)

text \<open>
  C1. On a configuration whose selected languages and selected data types are both
  non-empty, the calls of \<open>get_data\<close> that \<open>run_request\<close> makes are, in this order, one call
  for every language of the list (outer loop) and within it one for every data type of the
  list (inner loop); there are as many calls as the product of the two lengths.
\<close>

theorem run_request_calls_every_pair:
  assumes "selected_languages cfg \<noteq> []" and "selected_data_types cfg \<noteq> []"
  shows "filter is_get_data (fst (run_request gd cfg w)) =
           concat (map (\<lambda>l. map (\<lambda>d. get_data_call cfg l d) (selected_data_types cfg))
                     (selected_languages cfg))
       \<and> length (filter is_get_data (fst (run_request gd cfg w))) =
           length (selected_languages cfg) * length (selected_data_types cfg)"
proof -
  have len: "length (outcomes gd w (map (pair_call cfg) (pairs cfg))) = length (pairs cfg)"
    by (simp add: length_outcomes)
  have calls: "filter is_get_data (fst (run_request gd cfg w)) = map (pair_call cfg) (pairs cfg)"
    by (simp add: run_request_trace [OF assms] filter_calls_pair_events [OF len])
  have nested: "map (pair_call cfg) (pairs cfg) =
      concat (map (\<lambda>l. map (\<lambda>d. get_data_call cfg l d) (selected_data_types cfg))
                (selected_languages cfg))"
    by (simp add: pairs_def pair_call_def map_concat comp_def)
  have count: "length (filter is_get_data (fst (run_request gd cfg w))) =
      length (selected_languages cfg) * length (selected_data_types cfg)"
    by (simp add: calls length_pairs)
  from calls nested have "filter is_get_data (fst (run_request gd cfg w)) =
      concat (map (\<lambda>l. map (\<lambda>d. get_data_call cfg l d) (selected_data_types cfg))
                (selected_languages cfg))"
    by (rule trans)
  with count show ?thesis by (rule conjI [rotated])
qed

theorem run_request_calls_every_pair_witness:
  "selected_languages two_by_two \<noteq> [] \<and> selected_data_types two_by_two \<noteq> [] \<and>
   filter is_get_data (fst (run_request scripted two_by_two [True, False, False, True])) =
     [GetData ''French'' ''nouns'' ''csv'' ''out'' True True,
      GetData ''French'' ''verbs'' ''csv'' ''out'' True True,
      GetData ''German'' ''nouns'' ''csv'' ''out'' True True,
      GetData ''German'' ''verbs'' ''csv'' ''out'' True True] \<and>
   length (filter is_get_data (fst (run_request scripted two_by_two [True, False, False, True])))
     = 4"
proof -
  have ne: "selected_languages two_by_two \<noteq> []" "selected_data_types two_by_two \<noteq> []"
    by (simp_all add: two_by_two_def)
  from run_request_calls_every_pair [OF ne, of scripted "[True, False, False, True]"] ne
  show ?thesis by (simp add: two_by_two_def get_data_call_def)
qed

text \<open>
  C2. On a configuration with both selections non-empty, whatever \<open>get_data\<close> answers
  pair by pair, \<open>run_request\<close> runs to its end: it writes one log line per pair, in the
  order of the pairs, the line of a pair saying exported when \<open>get_data\<close> answered true for
  it and failed when it answered false; so an answer of false stops nothing, also when
  every answer is false.
\<close>

theorem run_request_logs_every_outcome:
  assumes "selected_languages cfg \<noteq> []" and "selected_data_types cfg \<noteq> []"
  shows "filter is_log (fst (run_request gd cfg w)) =
           map2 log_line (pairs cfg) (outcomes gd w (map (pair_call cfg) (pairs cfg)))
       \<and> length (filter is_log (fst (run_request gd cfg w))) =
           length (selected_languages cfg) * length (selected_data_types cfg)
       \<and> snd (snd (run_request gd cfg w)) = world_after gd w (map (pair_call cfg) (pairs cfg))"
proof -
  have len: "length (outcomes gd w (map (pair_call cfg) (pairs cfg))) = length (pairs cfg)"
    by (simp add: length_outcomes)
  show ?thesis
    by (simp add: run_request_trace [OF assms] filter_logs_pair_events [OF len] len length_pairs)
qed

theorem run_request_logs_every_outcome_witness:
  "selected_languages french_german_nouns \<noteq> [] \<and> selected_data_types french_german_nouns \<noteq> [] \<and>
   filter is_log (fst (run_request scripted french_german_nouns [False, True])) =
     [LogFailed ''French'' ''nouns'', LogExported ''German'' ''nouns''] \<and>
   filter is_log (fst (run_request scripted french_german_nouns [False, False])) =
     [LogFailed ''French'' ''nouns'', LogFailed ''German'' ''nouns'']"
proof -
  have ne: "selected_languages french_german_nouns \<noteq> []"
    "selected_data_types french_german_nouns \<noteq> []"
    by (simp_all add: french_german_nouns_def)
  from run_request_logs_every_outcome [OF ne, of scripted "[False, True]"]
    run_request_logs_every_outcome [OF ne, of scripted "[False, False]"] ne
  show ?thesis
    by (simp add: french_german_nouns_def pairs_def pair_call_def log_line_def get_data_call_def)
qed

text \<open>
  C10. On a configuration whose selected languages or selected data types are empty,
  \<open>run_request\<close> prints the error text and returns: that print is its only event, there is
  no call of \<open>get_data\<close>, and the configuration and the world are as they were.
\<close>

theorem run_request_unconfigured:
  assumes "selected_languages cfg = [] \<or> selected_data_types cfg = []"
  shows "run_request gd cfg w = ([Rprint PleaseConfigure], cfg, w)
       \<and> filter is_get_data (fst (run_request gd cfg w)) = []"
  using assms by (simp add: run_request_def)

theorem run_request_unconfigured_witness:
  "(selected_languages no_languages = [] \<or> selected_data_types no_languages = []) \<and>
   run_request scripted no_languages [True] = ([Rprint PleaseConfigure], no_languages, [True])"
proof -
  have e: "selected_languages no_languages = [] \<or> selected_data_types no_languages = []"
    by (simp add: no_languages_def)
  from run_request_unconfigured [OF e, of scripted "[True]"] e show ?thesis by simp
qed



section \<open>Properties of configure_settings\<close>

lemmas run_simps = language_selection_def data_type_selection_def filter_selection_def
  str_strip_def isspace_def prepend_def configure_output_def char_upper_def char_lower_def
  str_lower_def display_summary_def or_None_def events_of_def config_of_def unread_of_def
  status_of_def usual_depth_def

subsection \<open>Letter case\<close>

lemma char_lower_y: "char_lower c = CHR ''y'' \<longleftrightarrow> c = CHR ''y'' \<or> c = CHR ''Y''"
  by (auto simp: char_lower_def)

lemma str_lower_y: "str_lower s = ''y'' \<longleftrightarrow> s = ''y'' \<or> s = ''Y''"
  by (cases s) (auto simp: str_lower_def char_lower_y)

lemma char_upper_A: "char_lower c = CHR ''a'' \<Longrightarrow> char_upper c = CHR ''A''"
  by (auto simp: char_lower_def char_upper_def split: if_splits)

lemma capitalize_all: "str_lower s = ''all'' \<Longrightarrow> str_capitalize s = ''All''"
  by (cases s) (auto simp: str_lower_def char_upper_A)

text \<open>
  At the data type step the answer is capitalised before \<open>"All"\<close> is looked for, so
  \<open>All\<close> in any letter case selects every data type of the registry.
\<close>

lemma data_type_step_all_any_case:
  "str_lower s = ''all'' \<Longrightarrow> data_type_selection cfg s = data_types cfg"
  by (simp add: data_type_selection_def capitalize_all)

lemma language_step_All: "language_selection cfg ''All'' = languages cfg"
  by (simp add: language_selection_def)

text \<open>
  C3. At the language step the answer is searched for \<open>"All"\<close> as it is typed: \<open>all\<close> and
  \<open>ALL\<close>, which the data type step takes for the whole registry, select no language
  there, and the session warns and asks again (here with room for the nested call).
\<close>

theorem language_prompt_all_lower_case:
  "str_lower ''all'' = str_lower ''All''
   \<and> data_type_selection registry ''all'' = data_types registry
   \<and> language_selection registry ''all'' = []
   \<and> language_selection registry ''ALL'' = []
   \<and> configure_settings (Suc depth) registry [''all''] =
       ([Rprint FollowPrompts, PromptLanguages [], Rprint NoLanguageSelected,
         Rprint FollowPrompts, PromptLanguages []], registry, [], EOFError)"
  by (simp add: registry_def run_simps)

subsection \<open>The overwrite confirmation\<close>

lemma select_output_type_consumes:
  "select_output_type cfg ins = (evs, cfg1, ins1, Returned) \<Longrightarrow> \<exists>used. ins = used @ ins1"
proof (induction ins arbitrary: cfg evs)
  case Nil
  then show ?case by simp
next
  case (Cons t ins)
  show ?case
  proof (cases "t \<in> set [''json'', ''csv'', ''tsv'']")
    case True
    with Cons.prems have "ins1 = ins" by auto
    then show ?thesis by (intro exI [of _ "[t]"]) simp
  next
    case False
    with Cons.prems obtain evs' where
      "select_output_type (cfg\<lparr>output_type := t\<rparr>) ins = (evs', cfg1, ins1, Returned)"
      by (auto simp: prepend_def split: prod.splits)
    from Cons.IH [OF this] obtain used where "ins = used @ ins1" ..
    then show ?thesis by (intro exI [of _ "t # used"]) simp
  qed
qed

lemma configure_output_overwrite:
  assumes "configure_output cfg ins = (evs, cfg', rest, Returned)"
  shows "\<exists>before answer. ins = before @ answer # rest
           \<and> overwrite cfg' = (answer = [] \<or> answer = ''y'' \<or> answer = ''Y'')
           \<and> configured cfg'"
proof -
  from assms obtain evs1 cfg1 ins1 where
    sel: "select_output_type cfg ins = (evs1, cfg1, ins1, Returned)"
    by (auto simp: configure_output_def split: prod.splits status.splits)
  from select_output_type_consumes [OF sel] obtain used where used: "ins = used @ ins1" ..
  from assms sel obtain dir answer where ins1: "ins1 = dir # answer # rest"
    and ow: "overwrite cfg' = (str_lower (if answer \<noteq> [] then answer else ''y'') = ''y'')"
    and conf: "configured cfg'"
    by (auto simp: configure_output_def Let_def split: list.splits)
  have "str_lower (if answer \<noteq> [] then answer else ''y'') = ''y''
      \<longleftrightarrow> answer = [] \<or> answer = ''y'' \<or> answer = ''Y''"
    by (auto simp: str_lower_y)
  with ow used ins1 conf show ?thesis
    by (intro exI [of _ "used @ [dir]"] exI [of _ answer]) simp
qed

lemma prepend_Returned:
  "prepend evs0 r = (evs, cfg', rest, st) \<Longrightarrow> \<exists>evs1. r = (evs1, cfg', rest, st)"
  by (auto simp: prepend_def split: prod.splits)

text \<open>
  Whenever \<open>configure_settings\<close> returns, the last answer it read is the one to the
  overwrite prompt, and \<open>overwrite\<close> is set exactly when that answer is empty, \<open>y\<close> or \<open>Y\<close>.
\<close>

lemma configure_settings_overwrite:
  assumes "configure_settings depth cfg ins = (evs, cfg', rest, Returned)"
  shows "\<exists>before answer. ins = before @ answer # rest
           \<and> overwrite cfg' = (answer = [] \<or> answer = ''y'' \<or> answer = ''Y'')
           \<and> configured cfg'"
  using assms
proof (induction "length ins" arbitrary: ins depth cfg evs rule: less_induct)
  case less
  show ?case
  proof (cases ins)
    case Nil
    with less.prems show ?thesis by simp
  next
    case (Cons answer ins1)
    let ?cfg1 = "cfg\<lparr>selected_languages := language_selection cfg answer\<rparr>"
    show ?thesis
    proof (cases "language_selection cfg answer = []")
      case True
      with less.prems Cons obtain deeper evs1 where
        run: "configure_settings deeper ?cfg1 ins1 = (evs1, cfg', rest, Returned)"
        by (cases depth) (auto simp: Let_def dest: prepend_Returned)
      have "length ins1 < length ins" using Cons by simp
      from less.hyps [OF this run]
      obtain before a where "ins1 = before @ a # rest"
        "overwrite cfg' = (a = [] \<or> a = ''y'' \<or> a = ''Y'')" "configured cfg'"
        by auto
      with Cons show ?thesis by (intro exI [of _ "answer # before"] exI [of _ a]) simp
    next
      case False
      with less.prems Cons obtain answer2 ins2 where ins1: "ins1 = answer2 # ins2"
        by (cases ins1) (auto simp: Let_def)
      let ?cfg2 = "?cfg1\<lparr>selected_data_types := data_type_selection ?cfg1 answer2\<rparr>"
      show ?thesis
      proof (cases "data_type_selection ?cfg1 answer2 = []")
        case True
        with less.prems False Cons ins1 obtain deeper evs1 where
          run: "configure_settings deeper ?cfg2 ins2 = (evs1, cfg', rest, Returned)"
          by (cases depth) (auto simp: Let_def dest: prepend_Returned)
        have "length ins2 < length ins" using Cons ins1 by simp
        from less.hyps [OF this run]
        obtain before a where "ins2 = before @ a # rest"
          "overwrite cfg' = (a = [] \<or> a = ''y'' \<or> a = ''Y'')" "configured cfg'"
          by auto
        with Cons ins1 show ?thesis
          by (intro exI [of _ "answer # answer2 # before"] exI [of _ a]) simp
      next
        case dt: False
        with less.prems False Cons ins1 obtain evs1 where
          "configure_output ?cfg2 ins2 = (evs1, cfg', rest, Returned)"
          by (auto simp: Let_def dest: prepend_Returned)
        from configure_output_overwrite [OF this]
        obtain before a where "ins2 = before @ a # rest"
          "overwrite cfg' = (a = [] \<or> a = ''y'' \<or> a = ''Y'')" "configured cfg'"
          by auto
        with Cons ins1 show ?thesis
          by (intro exI [of _ "answer # answer2 # before"] exI [of _ a]) simp
      qed
    qed
  qed
qed

text \<open>
  C4, as the code has it. In every run of \<open>configure_settings\<close> that returns, the answer
  read last is the answer to the overwrite prompt, \<open>configured\<close> is set, and \<open>overwrite\<close> is
  true exactly when that answer is empty, \<open>y\<close> or \<open>Y\<close>; with any other answer it is false:
  with every answer that does not start with y or Y, and also with a longer answer that
  does, such as \<open>yes\<close>.
\<close>

theorem overwrite_answer:
  assumes "status_of (configure_settings depth cfg ins) = Returned"
  shows "\<exists>before answer.
           ins = before @ answer # unread_of (configure_settings depth cfg ins)
           \<and> overwrite (config_of (configure_settings depth cfg ins))
               = (answer = [] \<or> answer = ''y'' \<or> answer = ''Y'')
           \<and> configured (config_of (configure_settings depth cfg ins))"
proof -
  obtain evs cfg' rest st where r: "configure_settings depth cfg ins = (evs, cfg', rest, st)"
    by (cases "configure_settings depth cfg ins") auto
  with assms have "st = Returned" by (simp add: status_of_def)
  with r have "configure_settings depth cfg ins = (evs, cfg', rest, Returned)" by simp
  from configure_settings_overwrite [OF this] r show ?thesis
    by (simp add: unread_of_def config_of_def)
qed

theorem overwrite_answer_witness:
  "status_of (configure_settings usual_depth registry
      [''English'', ''nouns'', ''json'', '''', '''']) = Returned
   \<and> (\<exists>before answer.
         [''English'', ''nouns'', ''json'', '''', ''''] = before @ answer
           # unread_of (configure_settings usual_depth registry
               [''English'', ''nouns'', ''json'', '''', ''''])
         \<and> overwrite (config_of (configure_settings usual_depth registry
               [''English'', ''nouns'', ''json'', '''', '''']))
             = (answer = [] \<or> answer = ''y'' \<or> answer = ''Y'')
         \<and> configured (config_of (configure_settings usual_depth registry
               [''English'', ''nouns'', ''json'', '''', ''''])))"
proof -
  have h: "status_of (configure_settings usual_depth registry
      [''English'', ''nouns'', ''json'', '''', '''']) = Returned"
    by (simp add: registry_def run_simps)
  show ?thesis by (rule conjI [OF h overwrite_answer [OF h]])
qed

text \<open>
  The answer \<open>yes\<close> starts with y, and the run that reads it at the overwrite prompt
  returns with \<open>overwrite\<close> false.
\<close>

theorem overwrite_yes_counterexample:
  "startswith ''yes'' ''y''
   \<and> status_of (configure_settings usual_depth registry
         [''English'', ''nouns'', ''json'', '''', ''yes'']) = Returned
   \<and> \<not> overwrite (config_of (configure_settings usual_depth registry
           [''English'', ''nouns'', ''json'', '''', ''yes'']))"
  by (simp add: registry_def run_simps)

subsection \<open>Empty selections\<close>

lemma prepend_prepend: "prepend a (prepend b r) = prepend (a @ b) r"
  by (simp add: prepend_def split: prod.splits)

lemma prepend_Nil: "prepend [] r = r"
  by (simp add: prepend_def split: prod.splits)

lemma events_of_prepend: "events_of (prepend evs r) = evs @ events_of r"
  by (simp add: events_of_def prepend_def split: prod.splits)

lemma language_selection_registry:
  "languages cfg' = languages cfg \<Longrightarrow> language_selection cfg' = language_selection cfg"
  by (rule ext) (simp add: language_selection_def)

lemma data_type_selection_registry:
  "data_types cfg' = data_types cfg \<Longrightarrow> data_type_selection cfg' = data_type_selection cfg"
  by (rule ext) (simp add: data_type_selection_def)

lemma failed_round_registry:
  assumes "languages cfg' = languages cfg" and "data_types cfg' = data_types cfg"
  shows "failed_round cfg' r = failed_round cfg r"
  using language_selection_registry [OF assms(1)] data_type_selection_registry [OF assms(2)]
  by (cases "(cfg, r)" rule: failed_round.cases) simp_all

text \<open>
  One pass that ends in an empty selection: with room for a nested call the run goes on
  in that call, without room it ends in \<open>RecursionError\<close> after the warning.
\<close>

lemma failed_round_retry:
  assumes "failed_round cfg r"
  shows "\<exists>evs cfg'. length (filter is_warning evs) = 1
           \<and> PromptOutputType \<notin> set evs
           \<and> languages cfg' = languages cfg \<and> data_types cfg' = data_types cfg
           \<and> (\<forall>depth ins. configure_settings (Suc depth) cfg (r @ ins)
                 = prepend evs (configure_settings depth cfg' ins))
           \<and> (\<forall>ins. configure_settings 0 cfg (r @ ins) = (evs, cfg', ins, RecursionError))"
proof (cases "(cfg, r)" rule: failed_round.cases)
  case (1 c l)
  with assms have "language_selection cfg l = []" by simp
  with 1 show ?thesis
    by (intro exI [of _ "[Rprint FollowPrompts,
            PromptLanguages (str_join '', '' (selected_languages cfg)), Rprint NoLanguageSelected]"]
          exI [of _ "cfg\<lparr>selected_languages := []\<rparr>"])
      (simp add: is_warning_def)
next
  case (2 c l d)
  let ?cfg1 = "cfg\<lparr>selected_languages := language_selection cfg l\<rparr>"
  from 2 assms have l: "language_selection cfg l \<noteq> []" and d: "data_type_selection cfg d = []"
    by simp_all
  have "data_type_selection ?cfg1 d = data_type_selection cfg d"
    by (simp add: data_type_selection_def)
  with 2 l d show ?thesis
    by (intro exI [of _ "[Rprint FollowPrompts,
            PromptLanguages (str_join '', '' (selected_languages cfg)),
            PromptDataTypes (str_join '', '' (selected_data_types cfg)),
            Rprint NoDataTypeSelected]"]
          exI [of _ "cfg\<lparr>selected_languages := language_selection cfg l,
                         selected_data_types := []\<rparr>"])
      (simp add: is_warning_def)
qed (use assms in simp_all)

text \<open>Every call of \<open>configure_settings\<close> starts by asking for the languages.\<close>

lemma configure_settings_starts:
  "take 2 (events_of (configure_settings depth cfg ins)) =
     [Rprint FollowPrompts, PromptLanguages (str_join '', '' (selected_languages cfg))]"
proof (cases ins)
  case Nil
  then show ?thesis by (simp add: events_of_def)
next
  case (Cons a ins')
  show ?thesis
  proof (cases "language_selection cfg a = []")
    case True
    with Cons show ?thesis
      by (cases depth) (simp_all add: events_of_prepend, simp add: events_of_def)
  next
    case False
    show ?thesis
    proof (cases ins')
      case Nil
      with Cons False show ?thesis by (simp add: events_of_def)
    next
      case (Cons a2 ins2)
      with \<open>ins = a # ins'\<close> False show ?thesis
        by (cases depth; cases "data_type_selection
              (cfg\<lparr>selected_languages := language_selection cfg a\<rparr>) a2 = []")
          (simp_all add: events_of_prepend Let_def, simp_all add: events_of_def)
    qed
  qed
qed

text \<open>Passes that end in an empty selection, as many as there is room for.\<close>

lemma failed_rounds_within_depth:
  assumes "list_all (failed_round cfg) rounds" and "length rounds \<le> depth"
  shows "\<exists>evs cfg'. configure_settings depth cfg (concat rounds @ ins)
                       = prepend evs (configure_settings (depth - length rounds) cfg' ins)
           \<and> length (filter is_warning evs) = length rounds
           \<and> PromptOutputType \<notin> set evs
           \<and> languages cfg' = languages cfg \<and> data_types cfg' = data_types cfg"
  using assms
proof (induction rounds arbitrary: cfg depth)
  case Nil
  show ?case by (intro exI [of _ "[]"] exI [of _ cfg]) (simp add: prepend_Nil)
next
  case (Cons r rounds)
  from Cons.prems obtain deeper where depth: "depth = Suc deeper" and le: "length rounds \<le> deeper"
    by (cases depth) auto
  from Cons.prems have r: "failed_round cfg r" and rs: "list_all (failed_round cfg) rounds"
    by simp_all
  from failed_round_retry [OF r] obtain evs1 cfg1 where
    step: "\<And>ins. configure_settings (Suc deeper) cfg (r @ ins)
             = prepend evs1 (configure_settings deeper cfg1 ins)"
    and w1: "length (filter is_warning evs1) = 1" and o1: "PromptOutputType \<notin> set evs1"
    and reg1: "languages cfg1 = languages cfg" "data_types cfg1 = data_types cfg"
    by blast
  from rs failed_round_registry [OF reg1] have "list_all (failed_round cfg1) rounds"
    by (simp add: list_all_iff)
  from Cons.IH [OF this le] obtain evs2 cfg2 where
    rest: "configure_settings deeper cfg1 (concat rounds @ ins)
             = prepend evs2 (configure_settings (deeper - length rounds) cfg2 ins)"
    and w2: "length (filter is_warning evs2) = length rounds"
    and o2: "PromptOutputType \<notin> set evs2"
    and reg2: "languages cfg2 = languages cfg1" "data_types cfg2 = data_types cfg1"
    by blast
  show ?case
    using step [of "concat rounds @ ins"] rest w1 w2 o1 o2 reg1 reg2 depth
    by (intro exI [of _ "evs1 @ evs2"] exI [of _ cfg2]) (simp add: prepend_prepend)
qed

text \<open>One such pass more than there is room for.\<close>

lemma failed_rounds_beyond_depth:
  assumes "list_all (failed_round cfg) rounds" and "depth < length rounds"
  shows "\<exists>evs cfg' rest. configure_settings depth cfg (concat rounds @ ins)
                            = (evs, cfg', rest, RecursionError)
           \<and> length (filter is_warning evs) = Suc depth
           \<and> PromptOutputType \<notin> set evs"
  using assms
proof (induction rounds arbitrary: cfg depth)
  case Nil
  then show ?case by simp
next
  case (Cons r rounds)
  from Cons.prems have r: "failed_round cfg r" and rs: "list_all (failed_round cfg) rounds"
    by simp_all
  from failed_round_retry [OF r] obtain evs1 cfg1 where
    step: "\<And>depth ins. configure_settings (Suc depth) cfg (r @ ins)
             = prepend evs1 (configure_settings depth cfg1 ins)"
    and stop: "\<And>ins. configure_settings 0 cfg (r @ ins) = (evs1, cfg1, ins, RecursionError)"
    and w1: "length (filter is_warning evs1) = 1" and o1: "PromptOutputType \<notin> set evs1"
    and reg1: "languages cfg1 = languages cfg" "data_types cfg1 = data_types cfg"
    by blast
  show ?case
  proof (cases depth)
    case 0
    with stop [of "concat rounds @ ins"] w1 o1 show ?thesis by simp
  next
    case (Suc deeper)
    with Cons.prems have lt: "deeper < length rounds" by simp
    from rs failed_round_registry [OF reg1] have "list_all (failed_round cfg1) rounds"
      by (simp add: list_all_iff)
    from Cons.IH [OF this lt] obtain evs2 cfg2 rest where
      "configure_settings deeper cfg1 (concat rounds @ ins) = (evs2, cfg2, rest, RecursionError)"
      "length (filter is_warning evs2) = Suc deeper" "PromptOutputType \<notin> set evs2"
      by blast
    with step [of deeper "concat rounds @ ins"] Suc w1 o1 show ?thesis
      by (simp add: prepend_def)
  qed
qed

text \<open>
  C5, as the code has it. Take any number of passes that each end in an empty selection
  (of languages, or of data types after a valid language answer). As long as there is room
  for the nested calls, the session has warned once per pass, has never reached the output
  type prompt, has kept the registry, and is in a nested call of \<open>configure_settings\<close> on
  the answers not yet read: the next thing it does is to ask for the languages. After an
  empty language selection that is the prompt that was just answered; after an empty data
  type selection it is the language prompt too, not the data type prompt. No retry is
  counted, but the room is finite: with one pass more than there is room for, the run
  ends in \<open>RecursionError\<close>, after one warning more than there was room for nested calls
  and without reaching the output type prompt.
\<close>

theorem empty_selection_restarts:
  assumes "list_all (failed_round cfg) rounds"
  shows "(length rounds \<le> depth \<longrightarrow>
           (\<exists>evs cfg'. configure_settings depth cfg (concat rounds @ ins)
                         = prepend evs (configure_settings (depth - length rounds) cfg' ins)
              \<and> length (filter is_warning evs) = length rounds
              \<and> PromptOutputType \<notin> set evs
              \<and> languages cfg' = languages cfg \<and> data_types cfg' = data_types cfg
              \<and> take 2 (events_of (configure_settings (depth - length rounds) cfg' ins)) =
                  [Rprint FollowPrompts,
                   PromptLanguages (str_join '', '' (selected_languages cfg'))]))
       \<and> (depth < length rounds \<longrightarrow>
           (\<exists>evs cfg' rest. configure_settings depth cfg (concat rounds @ ins)
                              = (evs, cfg', rest, RecursionError)
              \<and> length (filter is_warning evs) = Suc depth
              \<and> PromptOutputType \<notin> set evs))"
proof (intro conjI impI)
  assume "length rounds \<le> depth"
  from failed_rounds_within_depth [OF assms this, of ins]
  show "\<exists>evs cfg'. configure_settings depth cfg (concat rounds @ ins)
                         = prepend evs (configure_settings (depth - length rounds) cfg' ins)
              \<and> length (filter is_warning evs) = length rounds
              \<and> PromptOutputType \<notin> set evs
              \<and> languages cfg' = languages cfg \<and> data_types cfg' = data_types cfg
              \<and> take 2 (events_of (configure_settings (depth - length rounds) cfg' ins)) =
                  [Rprint FollowPrompts,
                   PromptLanguages (str_join '', '' (selected_languages cfg'))]"
    by (simp add: configure_settings_starts)
next
  assume "depth < length rounds"
  from failed_rounds_beyond_depth [OF assms this, of ins]
  show "\<exists>evs cfg' rest. configure_settings depth cfg (concat rounds @ ins)
                              = (evs, cfg', rest, RecursionError)
              \<and> length (filter is_warning evs) = Suc depth
              \<and> PromptOutputType \<notin> set evs" .
qed

theorem empty_selection_restarts_witness:
  "list_all (failed_round registry) [[''Klingon''], [''English'', ''bogus'']]
   \<and> length [[''Klingon''], [''English'', ''bogus'']] \<le> usual_depth
   \<and> (\<exists>evs cfg'. configure_settings usual_depth registry
                     (concat [[''Klingon''], [''English'', ''bogus'']] @ [''German''])
                       = prepend evs (configure_settings
                           (usual_depth - length [[''Klingon''], [''English'', ''bogus'']])
                           cfg' [''German''])
           \<and> length (filter is_warning evs) = length [[''Klingon''], [''English'', ''bogus'']]
           \<and> PromptOutputType \<notin> set evs
           \<and> languages cfg' = languages registry \<and> data_types cfg' = data_types registry
           \<and> take 2 (events_of (configure_settings
                 (usual_depth - length [[''Klingon''], [''English'', ''bogus'']])
                 cfg' [''German''])) =
               [Rprint FollowPrompts, PromptLanguages (str_join '', '' (selected_languages cfg'))])
   \<and> list_all (failed_round registry) (replicate (Suc usual_depth) [''Klingon''])
   \<and> usual_depth < length (replicate (Suc usual_depth) [''Klingon''])
   \<and> (\<exists>evs cfg' rest. configure_settings usual_depth registry
                          (concat (replicate (Suc usual_depth) [''Klingon'']) @ [''German''])
                            = (evs, cfg', rest, RecursionError)
           \<and> length (filter is_warning evs) = Suc usual_depth
           \<and> PromptOutputType \<notin> set evs)"
proof -
  have h1: "list_all (failed_round registry) [[''Klingon''], [''English'', ''bogus'']]"
    by (simp add: registry_def run_simps)
  have le: "length [[''Klingon''], [''English'', ''bogus'']] \<le> usual_depth"
    by (simp add: usual_depth_def)
  have k: "failed_round registry [''Klingon'']"
    by (simp add: registry_def run_simps)
  then have h2: "list_all (failed_round registry) (replicate (Suc usual_depth) [''Klingon''])"
    by (simp add: list_all_iff)
  have lt: "usual_depth < length (replicate (Suc usual_depth) [''Klingon''])"
    by simp
  note within = empty_selection_restarts [OF h1, of usual_depth "[''German'']",
      THEN conjunct1, rule_format, OF le]
  note beyond = empty_selection_restarts [OF h2, of usual_depth "[''German'']",
      THEN conjunct2, rule_format, OF lt]
  from h1 le within h2 lt beyond show ?thesis by (intro conjI)
qed

text \<open>
  The answer \<open>bogus\<close> selects no data type. The warning is followed by the language
  prompt, which reads the next answer, \<open>nouns\<close>, as a language. And the retries have an
  end: after one answer more than there is room for nested calls, each selecting no
  language, the run is over with \<open>RecursionError\<close>, and the valid answer that follows is
  never read.
\<close>

theorem data_type_retry_counterexample:
  "data_type_selection registry ''bogus'' = []
   \<and> events_of (configure_settings usual_depth registry [''English'', ''bogus'', ''nouns'']) =
       [Rprint FollowPrompts, PromptLanguages [], PromptDataTypes [],
        Rprint NoDataTypeSelected,
        Rprint FollowPrompts, PromptLanguages ''English'', Rprint NoLanguageSelected,
        Rprint FollowPrompts, PromptLanguages []]
   \<and> status_of (configure_settings usual_depth registry
        (concat (replicate (Suc usual_depth) [''Klingon'']) @ [''English''])) = RecursionError"
proof -
  have a: "data_type_selection registry ''bogus'' = []"
    by (simp add: registry_def run_simps)
  have b: "events_of (configure_settings usual_depth registry [''English'', ''bogus'', ''nouns'']) =
       [Rprint FollowPrompts, PromptLanguages [], PromptDataTypes [],
        Rprint NoDataTypeSelected,
        Rprint FollowPrompts, PromptLanguages ''English'', Rprint NoLanguageSelected,
        Rprint FollowPrompts, PromptLanguages []]"
    by (simp add: registry_def run_simps)
  have k: "failed_round registry [''Klingon'']"
    by (simp add: registry_def run_simps)
  then have h: "list_all (failed_round registry) (replicate (Suc usual_depth) [''Klingon''])"
    by (simp add: list_all_iff)
  have lt: "usual_depth < length (replicate (Suc usual_depth) [''Klingon''])"
    by simp
  from failed_rounds_beyond_depth [OF h lt, of "[''English'']"]
  have c: "status_of (configure_settings usual_depth registry
        (concat (replicate (Suc usual_depth) [''Klingon'']) @ [''English''])) = RecursionError"
    by (auto simp: status_of_def)
  from a b c show ?thesis by (intro conjI)
qed

subsection \<open>Selections with valid and invalid names\<close>







section \<open>Properties of main\<close>


lemma truthy_normalize: "truthy (normalize_data_type d) = truthy d"
  by (cases d) (simp_all add: replace_hyphens_def)

lemma dispatch_no_get_data:
  "\<not> is_get_data_cli call \<Longrightarrow> filter is_get_data_cli (fst (dispatch sub call)) = []"
  by (auto simp: dispatch_def split: option.splits raised.splits)

lemma run_command_get_absent:
  assumes "args_command a \<in> set [''get'', ''g'']" and "\<not> args_interactive a"
    and "args_language a = Absent \<or> args_data_type a = Absent"
  shows "run_command sub a = ([], Uncaught AttributeError)"
proof (cases "args_language a")
  case Absent
  with assms show ?thesis by (auto simp: run_command_def)
next
  case (Str s)
  with assms have "args_data_type a = Absent" by simp
  with Str assms show ?thesis by (auto simp: run_command_def)
next
  case Flag
  with assms show ?thesis by (auto simp: run_command_def)
qed

text \<open>
  In a \<open>get\<close> invocation without \<open>--interactive\<close> that leaves out the language or the data
  type, \<open>get_data\<close> is not reached, however the run ends.
\<close>

lemma get_data_not_reached:
  assumes "args_command a \<in> set [''get'', ''g'']" and "\<not> args_interactive a"
    and "args_language a = Absent \<or> args_data_type a = Absent"
  shows "filter is_get_data_cli (fst (main validate sub (Command a))) = []"
proof -
  let ?a = "a\<lparr>args_data_type := normalize_data_type (args_data_type a)\<rparr>"
  have abs: "args_language ?a = Absent \<or> args_data_type ?a = Absent"
    using assms(3) by auto
  have rc: "run_command sub ?a = ([], Uncaught AttributeError)"
    by (rule run_command_get_absent) (use assms abs in simp_all)
  have ne: "args_command a \<noteq> []" using assms(1) by auto
  show ?thesis
    using rc ne
    by (auto simp: Let_def split: option.splits)
qed

text \<open>
  C7. The \<open>get\<close> parser does not mark \<open>--language\<close> and \<open>--data-type\<close> as required (the
  \<open>convert\<close> parser does), and the \<open>get\<close> branch calls \<open>.lower()\<close> on both without a test
  for \<open>None\<close> (the \<open>total\<close> branch has that test). So \<open>get --all\<close>, with neither option,
  is not turned down: nothing is validated and nothing is printed, and the run ends in
  the \<open>AttributeError\<close> of \<open>None.lower()\<close>, which nothing catches. With \<open>--upgrade\<close> the same
  invocation runs the upgrade and exits as if nothing were missing. The same options under
  \<open>total\<close> run \<open>total_wrapper\<close>.
\<close>

theorem get_all_without_options:
  "args_language get_all = Absent \<and> args_data_type get_all = Absent
   \<and> \<not> args_interactive get_all
   \<and> main reject_all returns (Command get_all) = ([], Uncaught AttributeError)
   \<and> main reject_all returns (Command (get_all\<lparr>args_upgrade := True\<rparr>)) = ([UpgradeCli], Exits)
   \<and> main reject_all returns (Command (get_all\<lparr>args_command := ''total''\<rparr>))
       = ([TotalWrapper None None (Some True)], Exits)"
  by (simp add: get_all_def reject_all_def returns_def run_command_def dispatch_def)

text \<open>
  C8, as the code has it. When the language or the data type of an invocation is true for
  Python (a non-empty text, or the bare flag of \<open>list\<close>), the first action of \<open>main\<close> is
  the validation of both values, the data type with its hyphens replaced by underscores;
  and if the validation raises \<open>ValueError\<close>, \<open>main\<close> prints the error and returns, with no
  other action.
\<close>

theorem validation_precedes_command:
  assumes "truthy (args_language a) \<or> truthy (args_data_type a)"
  shows "(\<exists>rest. fst (main validate sub (Command a)) =
            Validate (args_language a) (normalize_data_type (args_data_type a)) # rest)
       \<and> (\<forall>e. validate (args_language a) (normalize_data_type (args_data_type a)) = Some e \<longrightarrow>
            main validate sub (Command a) =
              ([Validate (args_language a) (normalize_data_type (args_data_type a)),
                PrintValidationFailed e], Exits))"
  using assms
  by (auto simp: Let_def truthy_normalize split: option.splits prod.splits)

text \<open>
  An invocation with the empty text as its language supplies a value that is false for
  Python: nothing is validated, even by a validator that rejects everything, and the
  command runs.
\<close>

theorem empty_language_counterexample:
  "args_language total_empty_language = Str []
   \<and> reject_all (args_language total_empty_language)
        (normalize_data_type (args_data_type total_empty_language)) \<noteq> None
   \<and> main reject_all returns (Command total_empty_language) =
       ([TotalWrapper (Some []) None None], Exits)"
  by (simp add: total_empty_language_def reject_all_def returns_def run_command_def
      dispatch_def str_lower_def)


theorem validation_precedes_command_witness:
  "truthy (args_data_type get_without_language)
   \<and> normalize_data_type (args_data_type get_without_language) = Str ''proper_nouns''
   \<and> (\<exists>rest. fst (main reject_all returns (Command get_without_language)) =
          Validate (args_language get_without_language)
            (normalize_data_type (args_data_type get_without_language)) # rest)
   \<and> main reject_all returns (Command get_without_language) =
       ([Validate (args_language get_without_language)
           (normalize_data_type (args_data_type get_without_language)),
         PrintValidationFailed ''Invalid language or data type.''], Exits)"
proof -
  have t: "truthy (args_data_type get_without_language)"
    by (simp add: get_without_language_def)
  then have h: "truthy (args_language get_without_language)
      \<or> truthy (args_data_type get_without_language)" ..
  have n: "normalize_data_type (args_data_type get_without_language) = Str ''proper_nouns''"
    by (simp add: get_without_language_def replace_hyphens_def)
  have v: "reject_all (args_language get_without_language)
      (normalize_data_type (args_data_type get_without_language))
      = Some ''Invalid language or data type.''"
    by (simp add: reject_all_def)
  note inst = validation_precedes_command [OF h, of reject_all returns]
  from inst have first: "\<exists>rest. fst (main reject_all returns (Command get_without_language)) =
          Validate (args_language get_without_language)
            (normalize_data_type (args_data_type get_without_language)) # rest"
    by (rule conjunct1)
  from inst v have fail: "main reject_all returns (Command get_without_language) =
       ([Validate (args_language get_without_language)
           (normalize_data_type (args_data_type get_without_language)),
         PrintValidationFailed ''Invalid language or data type.''], Exits)"
    by blast
  from t n first fail show ?thesis by (intro conjI)
qed

text \<open>
  When neither value is true for Python (each is left out or is the empty text), nothing
  is validated.
\<close>

lemma dispatch_no_validation:
  assumes "\<And>x y. call \<noteq> Validate x y"
  shows "Validate l d \<notin> set (fst (dispatch sub call))"
proof (cases "sub call")
  case None
  with assms [of l d] show ?thesis by (auto simp: dispatch_def)
next
  case (Some e)
  with assms [of l d] show ?thesis by (cases e) (auto simp: dispatch_def)
qed

lemma run_command_no_validation: "Validate l d \<notin> set (fst (run_command sub a))"
  unfolding run_command_def
  by (simp add: dispatch_no_validation split: sum.split)

lemma no_validation_when_falsy:
  assumes "\<not> truthy (args_language a)" and "\<not> truthy (args_data_type a)"
  shows "Validate l d \<notin> set (fst (main validate sub (Command a)))"
proof -
  let ?a = "a\<lparr>args_data_type := normalize_data_type (args_data_type a)\<rparr>"
  from assms have f: "\<not> (truthy (args_language ?a) \<or> truthy (args_data_type ?a))"
    by (simp add: truthy_normalize)
  obtain evs x where rc: "run_command sub ?a = (evs, x)" by (cases "run_command sub ?a")
  with run_command_no_validation [of l d sub ?a] have "Validate l d \<notin> set evs" by simp
  with f rc show ?thesis
    by (simp add: Let_def split: option.split)
qed


section \<open>Properties of the formatter of Portuguese verbs\<close>


lemma distinct_all_conjugations: "distinct all_conjugations"
  by (simp add: all_conjugations_def)

lemma length_all_conjugations: "length all_conjugations = 24"
  by (simp add: all_conjugations_def)

lemma update_fresh: "k \<notin> fst ` set al \<Longrightarrow> AList.update k v al = al @ [(k, v)]"
  by (induction al) auto

lemma foldl_update_fresh:
  "distinct cs \<Longrightarrow> set cs \<inter> fst ` set acc = {} \<Longrightarrow>
   foldl (\<lambda>entry c. AList.update c (f c) entry) acc cs = acc @ map (\<lambda>c. (c, f c)) cs"
proof (induction cs arbitrary: acc)
  case Nil
  then show ?case by simp
next
  case (Cons c cs)
  from Cons.prems have fresh: "c \<notin> fst ` set acc" by auto
  have "set cs \<inter> fst ` set (acc @ [(c, f c)]) = {}"
    using Cons.prems by auto
  with Cons.prems Cons.IH [of "acc @ [(c, f c)]"] fresh show ?case
    by (simp add: update_fresh)
qed

lemma fill_conjugations_canonical: "fill_conjugations r = canonical_entry r"
  unfolding fill_conjugations_def canonical_entry_def
  using foldl_update_fresh [OF distinct_all_conjugations, of "[]"] by simp

lemma find_append:
  "find P (xs @ ys) = (case find P xs of None \<Rightarrow> find P ys | Some x \<Rightarrow> Some x)"
  by (induction xs) auto

lemma find_Some_set: "find P xs = Some x \<Longrightarrow> x \<in> set xs \<and> P x"
  by (induction xs) (auto split: if_splits)

lemma last_row_with_Cons:
  "last_row_with k (r # rows) =
     (case last_row_with k rows of
        Some r' \<Rightarrow> Some r'
      | None \<Rightarrow> if r ''infinitive'' = Some k then Some r else None)"
  by (simp add: last_row_with_def find_append split: option.splits)

lemma format_rows_ok:
  assumes "list_all has_infinitive rows" and "distinct (map fst acc)"
  shows "\<exists>out. format_rows rows acc = Inr out \<and> distinct (map fst out)
           \<and> (\<forall>k. map_of out k =
                 (case last_row_with k rows of
                    Some r \<Rightarrow> Some (canonical_entry r)
                  | None \<Rightarrow> map_of acc k))"
  using assms
proof (induction rows arbitrary: acc)
  case Nil
  then show ?case by (simp add: last_row_with_def)
next
  case (Cons r rows)
  from Cons.prems obtain inf0 where inf0: "r ''infinitive'' = Some inf0"
    by (auto simp: has_infinitive_def)
  let ?acc = "AList.update inf0 (fill_conjugations r) acc"
  from Cons.prems have d: "distinct (map fst ?acc)" by (simp add: distinct_update)
  from Cons.prems have "list_all has_infinitive rows" by simp
  from Cons.IH [OF this d] obtain out where
    out: "format_rows rows ?acc = Inr out" "distinct (map fst out)"
    and m: "\<And>k. map_of out k =
                 (case last_row_with k rows of
                    Some r \<Rightarrow> Some (canonical_entry r)
                  | None \<Rightarrow> map_of ?acc k)"
    by blast
  have "map_of out k =
      (case last_row_with k (r # rows) of
         Some r \<Rightarrow> Some (canonical_entry r)
       | None \<Rightarrow> map_of acc k)" for k
  proof (cases "last_row_with k rows")
    case None
    show ?thesis
    proof (cases "inf0 = k")
      case True
      with None inf0 show ?thesis
        by (simp add: m last_row_with_Cons update_conv' fill_conjugations_canonical)
    next
      case False
      with None inf0 show ?thesis
        by (simp add: m last_row_with_Cons update_conv')
    qed
  next
    case (Some r')
    then show ?thesis by (simp add: m last_row_with_Cons)
  qed
  with out inf0 show ?case by simp
qed

lemma distinct_keys_sort_key:
  "distinct (map fst xs) \<Longrightarrow> distinct (map fst (sort_key fst xs))"
  by (induction xs) (simp_all add: distinct_insort_key)

lemma map_of_sort_key:
  assumes "distinct (map fst xs)"
  shows "map_of (sort_key fst xs) = map_of xs"
  using map_of_inject_set [OF distinct_keys_sort_key [OF assms] assms] by simp

text \<open>
  C9. When every queried row has an infinitive, the formatter gives a result: a list of
  entries sorted by their keys, which differ, whose keys are the infinitives of the rows.
  The entry of an infinitive is made from the last row that has it: it has the 24
  conjugation fields, all of them and in the order of \<open>all_conjugations\<close>, each with the
  value of the row, or with the empty text when the row lacks the field.
\<close>

theorem verbs_formatted_canonical:
  assumes "list_all has_infinitive verbs_list"
  shows "\<exists>out. verbs_formatted verbs_list = Inr out
           \<and> sorted (map fst out) \<and> distinct (map fst out)
           \<and> (\<forall>k. map_of out k = map_option canonical_entry (last_row_with k verbs_list))
           \<and> (\<forall>(k, entry) \<in> set out.
                 map fst entry = all_conjugations \<and> length entry = 24
                 \<and> (\<exists>r \<in> set verbs_list. r ''infinitive'' = Some k
                       \<and> (\<forall>conj \<in> set all_conjugations.
                             map_of entry conj = Some (case r conj of Some v \<Rightarrow> v | None \<Rightarrow> []))))"
proof -
  from format_rows_ok [OF assms, of "[]"] obtain formatted where
    f: "format_rows verbs_list [] = Inr formatted" and d: "distinct (map fst formatted)"
    and fm: "\<And>k. map_of formatted k =
                 (case last_row_with k verbs_list of
                    Some r \<Rightarrow> Some (canonical_entry r)
                  | None \<Rightarrow> map_of [] k)"
    by auto
  have m: "map_of formatted k = map_option canonical_entry (last_row_with k verbs_list)" for k
    using fm [of k] by (cases "last_row_with k verbs_list") simp_all
  let ?out = "sort_key fst formatted"
  have v: "verbs_formatted verbs_list = Inr ?out" by (simp add: verbs_formatted_def f)
  have s: "sorted (map fst ?out)" by simp
  have d': "distinct (map fst ?out)" by (rule distinct_keys_sort_key [OF d])
  have m': "map_of ?out k = map_option canonical_entry (last_row_with k verbs_list)" for k
    by (simp add: map_of_sort_key [OF d] m)
  have e: "map fst entry = all_conjugations \<and> length entry = 24
                 \<and> (\<exists>r \<in> set verbs_list. r ''infinitive'' = Some k
                       \<and> (\<forall>conj \<in> set all_conjugations.
                             map_of entry conj = Some (case r conj of Some v \<Rightarrow> v | None \<Rightarrow> [])))"
    if "(k, entry) \<in> set ?out" for k entry
  proof -
    from that d' have "map_of ?out k = Some entry" by (simp only: map_of_eq_Some_iff)
    with m' obtain r where r: "last_row_with k verbs_list = Some r" and en: "entry = canonical_entry r"
      by auto
    from r have "r \<in> set verbs_list" "r ''infinitive'' = Some k"
      using find_Some_set [of "\<lambda>r. r ''infinitive'' = Some k" "rev verbs_list" r]
      by (simp_all add: last_row_with_def)
    moreover have "map fst entry = all_conjugations"
      by (simp add: en canonical_entry_def comp_def)
    moreover have "length entry = 24"
      by (simp add: en canonical_entry_def length_all_conjugations)
    moreover have "map_of entry conj = Some (case r conj of Some v \<Rightarrow> v | None \<Rightarrow> [])"
      if "conj \<in> set all_conjugations" for conj
      using that by (simp add: en canonical_entry_def map_of_map_restrict)
    ultimately show ?thesis by blast
  qed
  from v s d' m' e show ?thesis by (intro exI [of _ ?out]) auto
qed


theorem verbs_formatted_canonical_witness:
  "list_all has_infinitive three_rows
   \<and> (\<exists>out. verbs_formatted three_rows = Inr out
           \<and> sorted (map fst out) \<and> distinct (map fst out)
           \<and> (\<forall>k. map_of out k = map_option canonical_entry (last_row_with k three_rows))
           \<and> (\<forall>(k, entry) \<in> set out.
                 map fst entry = all_conjugations \<and> length entry = 24
                 \<and> (\<exists>r \<in> set three_rows. r ''infinitive'' = Some k
                       \<and> (\<forall>conj \<in> set all_conjugations.
                             map_of entry conj = Some (case r conj of Some v \<Rightarrow> v | None \<Rightarrow> [])))))"
proof -
  have h: "list_all has_infinitive three_rows"
    by (simp add: three_rows_def has_infinitive_def)
  show ?thesis by (rule conjI [OF h verbs_formatted_canonical [OF h]])
qed

text \<open>The result on the three rows, in part.\<close>

lemma three_rows_keys:
  "map_sum id (map fst) (verbs_formatted three_rows) = Inr [''amar'', ''ser'']"
  by (simp add: verbs_formatted_def three_rows_def)

lemma three_rows_ser:
  "map_sum id (\<lambda>out. map_option (take 3) (map_of out ''ser'')) (verbs_formatted three_rows)
     = Inr (Some [(''presFPS'', []), (''presSPS'', ''es''), (''presTPS'', [])])"
  by (simp add: verbs_formatted_def three_rows_def fill_conjugations_canonical canonical_entry_def all_conjugations_def)

end
